theory Spec2Isabelle
  imports Main "HOL-Library.Sublist"
begin

section \<open>Git hook helpers: the Header Stamper and the Branch Guard\<close>

text \<open>
  A shallow embedding of \<^verbatim>\<open>scripts/add_repo_path_header.py\<close> and
  \<^verbatim>\<open>scripts/block_branch.py\<close>. Text is a \<open>string\<close> of the bytes of its UTF-8
  encoding. Everything the scripts take from their surroundings is explicit: the outcome
  of the \<^verbatim>\<open>git\<close> subprocess, the working directory, what \<^verbatim>\<open>Path.resolve\<close>
  answers, and the files on disk. Every exception of the Python is a value \<open>Inl err\<close>.
  The host is POSIX (\<^verbatim>\<open>os.linesep\<close> is a line feed), as the scripts' use under a
  \<^verbatim>\<open>python3\<close> shebang suggests.
\<close>

subsection \<open>Strings\<close>

abbreviation LF :: char where
  "LF \<equiv> CHR 0x0A"

abbreviation CR :: char where
  "CR \<equiv> CHR 0x0D"

text \<open>\<^verbatim>\<open>s.startswith(p)\<close> and \<^verbatim>\<open>s.endswith(p)\<close>.\<close>

definition startswith :: "string \<Rightarrow> string \<Rightarrow> bool" where
  "startswith s p = prefix p s"

definition endswith :: "string \<Rightarrow> string \<Rightarrow> bool" where
  "endswith s p = suffix p s"

text \<open>
  \<^verbatim>\<open>str.strip()\<close>: the ASCII characters Python counts as whitespace are removed from
  both ends (the whitespace code points beyond ASCII are outside this byte model).
\<close>

definition py_isspace :: "char \<Rightarrow> bool" where
  "py_isspace c = (c \<in> set [CHR 0x09, LF, CHR 0x0B, CHR 0x0C, CR,
                              CHR 0x1C, CHR 0x1D, CHR 0x1E, CHR 0x1F, CHR 0x20])"

definition strip :: "string \<Rightarrow> string" where
  "strip s = rev (dropWhile py_isspace (rev (dropWhile py_isspace s)))"

text \<open>\<^verbatim>\<open>sep.join(xs)\<close> and \<^verbatim>\<open>s.split(sep)\<close> for a one-character separator.\<close>

fun join :: "string \<Rightarrow> string list \<Rightarrow> string" where
  "join sep [] = []"
| "join sep [x] = x"
| "join sep (x # y # ys) = x @ sep @ join sep (y # ys)"

fun split_on :: "char \<Rightarrow> string \<Rightarrow> string list" where
  "split_on sep [] = [[]]"
| "split_on sep (c # cs) =
     (if c = sep then [] # split_on sep cs
      else (case split_on sep cs of
              [] \<Rightarrow> [[c]]
            | l # ls \<Rightarrow> (c # l) # ls))"

subsection \<open>Exceptions and the subprocess\<close>

datatype py_error =
    CalledProcessError
  | OSError
  | ValueError
  | AttributeError
  | FileNotFoundError
  | PermissionError
  | IsADirectoryError
  | UnicodeDecodeError

text \<open>
  What running \<^verbatim>\<open>git rev-parse ...\<close> can do: exit with status 0 and some output, exit
  with another status, or not start at all (no \<^verbatim>\<open>git\<close> executable).
  \<^verbatim>\<open>subprocess.check_output\<close> returns the output in the first case, raises
  \<^verbatim>\<open>CalledProcessError\<close> in the second and an \<^verbatim>\<open>OSError\<close> in the third.
\<close>

datatype proc_result = Output string | NonZeroExit | LaunchFailed

definition check_output :: "proc_result \<Rightarrow> py_error + string" where
  "check_output r =
     (case r of
        Output s \<Rightarrow> Inr s
      | NonZeroExit \<Rightarrow> Inl CalledProcessError
      | LaunchFailed \<Rightarrow> Inl OSError)"

subsection \<open>Paths\<close>

text \<open>
  A \<^verbatim>\<open>pathlib\<close> path on POSIX: its anchor (\<open>''/''\<close>, \<open>''//''\<close> or empty for a
  relative path) and its name components.
\<close>

datatype pure_path = PurePath (anchor: string) (names: "string list")

text \<open>\<^verbatim>\<open>Path(s)\<close>: empty and \<^verbatim>\<open>.\<close> components are dropped.\<close>

definition Path :: "string \<Rightarrow> pure_path" where
  "Path s =
     PurePath
       (if prefix ''//'' s \<and> \<not> prefix ''///'' s then ''//''
        else if prefix ''/'' s then ''/'' else [])
       (filter (\<lambda>n. n \<noteq> [] \<and> n \<noteq> ''.'') (split_on (CHR ''/'') s))"

text \<open>
  \<^verbatim>\<open>p.relative_to(other)\<close> raises \<^verbatim>\<open>ValueError\<close> unless \<open>other\<close> is \<open>p\<close> or
  one of its ancestors.
\<close>

definition relative_to :: "pure_path \<Rightarrow> pure_path \<Rightarrow> py_error + pure_path" where
  "relative_to p other =
     (if anchor p = anchor other \<and> prefix (names other) (names p)
      then Inr (PurePath [] (drop (length (names other)) (names p)))
      else Inl ValueError)"

text \<open>\<^verbatim>\<open>p.name\<close>: the last component, a \<^verbatim>\<open>str\<close>.\<close>

definition path_name :: "pure_path \<Rightarrow> string" where
  "path_name p = (if names p = [] then [] else last (names p))"

definition posix_str :: "pure_path \<Rightarrow> string" where
  "posix_str p =
     (if anchor p = [] \<and> names p = [] then ''.''
      else anchor p @ join ''/'' (names p))"

text \<open>
  The value bound to \<^verbatim>\<open>rel_path\<close> is a path object on one branch and a
  \<^verbatim>\<open>str\<close> on the other. Only a path object has the method \<^verbatim>\<open>as_posix\<close>; looking it
  up on a \<^verbatim>\<open>str\<close> raises \<^verbatim>\<open>AttributeError\<close>.
\<close>

datatype pyobj = PathObj pure_path | StrObj string

fun as_posix :: "pyobj \<Rightarrow> py_error + string" where
  "as_posix (PathObj p) = Inr (posix_str p)"
| "as_posix (StrObj s) = Inl AttributeError"

subsection \<open>Files\<close>

text \<open>
  What a path names on disk: a regular file the process may read and write, with its
  bytes; a regular file whose bytes are not valid UTF-8; a file the process may not
  access; a directory. The world also records every \<^verbatim>\<open>open\<close> call, with its mode.
\<close>

datatype entry = Regular string | Undecodable | Denied | Directory

record world =
  files :: "pure_path \<Rightarrow> entry option"
  opened :: "(pure_path \<times> string) list"

record env =
  resolve :: "string \<Rightarrow> pure_path"
  cwd :: pure_path
  git_toplevel :: proc_result
  argv :: "string list"

text \<open>
  Reading in text mode with the default \<^verbatim>\<open>newline=None\<close>: \<^verbatim>\<open>\r\n\<close> and a lone
  \<^verbatim>\<open>\r\<close> both arrive as \<^verbatim>\<open>\n\<close>.
\<close>

fun universal_newlines :: "string \<Rightarrow> string" where
  "universal_newlines [] = []"
| "universal_newlines [c] = (if c = CR then [LF] else [c])"
| "universal_newlines (c # d # cs) =
     (if c = CR \<and> d = LF then LF # universal_newlines cs
      else if c = CR then LF # universal_newlines (d # cs)
      else c # universal_newlines (d # cs))"

text \<open>The lines of a text, each with its terminating line feed (the last may lack one).\<close>

fun split_lines :: "string \<Rightarrow> string list" where
  "split_lines [] = []"
| "split_lines (c # cs) =
     (if c = LF then [LF] # split_lines cs
      else (case split_lines cs of
              [] \<Rightarrow> [[c]]
            | l # ls \<Rightarrow> (c # l) # ls))"

definition readlines :: "string \<Rightarrow> string list" where
  "readlines content = split_lines (universal_newlines content)"

text \<open>
  Lines 27-28, \<^verbatim>\<open>with open(path, "r+", encoding="utf-8") as f: lines = f.readlines()\<close>.
\<close>

definition read_lines :: "pure_path \<Rightarrow> world \<Rightarrow> (py_error + string list) \<times> world" where
  "read_lines p w =
     (let w' = w\<lparr>opened := opened w @ [(p, ''r+'')]\<rparr> in
      case files w p of
        None \<Rightarrow> (Inl FileNotFoundError, w')
      | Some Directory \<Rightarrow> (Inl IsADirectoryError, w')
      | Some Denied \<Rightarrow> (Inl PermissionError, w')
      | Some Undecodable \<Rightarrow> (Inl UnicodeDecodeError, w')
      | Some (Regular c) \<Rightarrow> (Inr (readlines c), w'))"

text \<open>
  Lines 37-38, \<^verbatim>\<open>with open(path, "w", encoding="utf-8") as f: f.writelines(lines)\<close>:
  the file is truncated (or created) and the lines are written one after the other; a
  line feed is written as it is.
\<close>

definition write_lines :: "pure_path \<Rightarrow> string list \<Rightarrow> world \<Rightarrow> (py_error + unit) \<times> world" where
  "write_lines p ls w =
     (let w' = w\<lparr>opened := opened w @ [(p, ''w'')]\<rparr> in
      case files w p of
        Some Directory \<Rightarrow> (Inl IsADirectoryError, w')
      | Some Denied \<Rightarrow> (Inl PermissionError, w')
      | _ \<Rightarrow> (Inr (), w'\<lparr>files := (files w)(p \<mapsto> Regular (concat ls))\<rparr>))"

subsection \<open>The Header Stamper\<close>

definition get_repo_root :: "env \<Rightarrow> py_error + pure_path" where
  "get_repo_root e =
     (case check_output (git_toplevel e) of
        Inr out \<Rightarrow> Inr (Path (strip out))
      | Inl err \<Rightarrow> if err = CalledProcessError then Inr (cwd e) else Inl err)"

text \<open>Lines 20-25 of \<^verbatim>\<open>ensure_header\<close>: the header line for a file.\<close>

definition header_line :: "env \<Rightarrow> string \<Rightarrow> pure_path \<Rightarrow> py_error + string" where
  "header_line e filepath repo_root =
     (let path = resolve e filepath in
      case (case relative_to path repo_root of
              Inr r \<Rightarrow> Inr (PathObj r)
            | Inl err \<Rightarrow> if err = ValueError then Inr (StrObj (path_name path)) else Inl err) of
        Inl err \<Rightarrow> Inl err
      | Inr rel_path \<Rightarrow>
          (case as_posix rel_path of
             Inl err \<Rightarrow> Inl err
           | Inr s \<Rightarrow> Inr (''# '' @ s @ [LF])))"

text \<open>Lines 31-35 of \<^verbatim>\<open>ensure_header\<close>: replace the first line, or insert above it.\<close>

definition stamp :: "string \<Rightarrow> string list \<Rightarrow> string list" where
  "stamp header lines =
     (if lines \<noteq> [] \<and> startswith (hd lines) ''# ''
      then (if hd lines \<noteq> header then lines[0 := header] else lines)
      else header # lines)"

definition ensure_header :: "env \<Rightarrow> string \<Rightarrow> pure_path \<Rightarrow> world \<Rightarrow> (py_error + unit) \<times> world" where
  "ensure_header e filepath repo_root w =
     (case header_line e filepath repo_root of
        Inl err \<Rightarrow> (Inl err, w)
      | Inr header \<Rightarrow>
          (case read_lines (resolve e filepath) w of
             (Inl err, w1) \<Rightarrow> (Inl err, w1)
           | (Inr lines, w1) \<Rightarrow> write_lines (resolve e filepath) (stamp header lines) w1))"

text \<open>The loop of \<^verbatim>\<open>main\<close> over \<^verbatim>\<open>sys.argv[1:]\<close>; an exception ends it.\<close>

fun main_loop :: "env \<Rightarrow> pure_path \<Rightarrow> string list \<Rightarrow> world \<Rightarrow> (py_error + unit) \<times> world" where
  "main_loop e repo_root [] w = (Inr (), w)"
| "main_loop e repo_root (file # rest) w =
     (if endswith file ''.py''
      then (case ensure_header e file repo_root w of
              (Inl err, w') \<Rightarrow> (Inl err, w')
            | (Inr u, w') \<Rightarrow> main_loop e repo_root rest w')
      else main_loop e repo_root rest w)"

definition main :: "env \<Rightarrow> world \<Rightarrow> (py_error + int) \<times> world" where
  "main e w =
     (case get_repo_root e of
        Inl err \<Rightarrow> (Inl err, w)
      | Inr repo_root \<Rightarrow>
          (case main_loop e repo_root (drop 1 (argv e)) w of
             (Inl err, w') \<Rightarrow> (Inl err, w')
           | (Inr u, w') \<Rightarrow> (Inr 0, w')))"

text \<open>
  The status the interpreter exits with: the argument of \<^verbatim>\<open>sys.exit\<close>, or 1 after a
  traceback when an exception was never caught.
\<close>

definition exit_status :: "py_error + int \<Rightarrow> int" where
  "exit_status r = (case r of Inr n \<Rightarrow> n | Inl err \<Rightarrow> 1)"

subsection \<open>The Branch Guard\<close>

text \<open>
  The module body of \<^verbatim>\<open>block_branch.py\<close>, from the outcome of
  \<^verbatim>\<open>git rev-parse --abbrev-ref HEAD\<close> to what is printed and the value passed to
  \<^verbatim>\<open>sys.exit\<close> (0 when the module body runs to its end).
\<close>

definition refusal :: "string \<Rightarrow> string" where
  "refusal branch =
     ''Commits diretos para '' @ [CHR 0x22] @ branch @ [CHR 0x22] @
     '' n'' @ [CHR 0xC3, CHR 0xA3] @ ''o s'' @ [CHR 0xC3, CHR 0xA3] @ ''o permitidos.'' @ [LF]"

definition block_branch :: "proc_result \<Rightarrow> py_error + (string \<times> int)" where
  "block_branch r =
     (case check_output r of
        Inl err \<Rightarrow> Inl err
      | Inr out \<Rightarrow>
          (let branch = strip out in
           if branch \<in> set [''main'', ''master'']
           then Inr (refusal branch, 1)
           else Inr ([], 0)))"

subsection \<open>A sample checkout\<close>

text \<open>
  A concrete surrounding for the examples below: the working directory and the
  repository root are \<^verbatim>\<open>/repo\<close>, \<^verbatim>\<open>resolve\<close> joins a relative argument to the
  working directory (no symbolic links), and a handful of files are on disk.
\<close>

definition sample_resolve :: "string \<Rightarrow> pure_path" where
  "sample_resolve s = Path (if prefix ''/'' s then s else ''/repo/'' @ s)"

definition sample_root :: pure_path where
  "sample_root = PurePath ''/'' [''repo'']"

definition sample_env :: "proc_result \<Rightarrow> string list \<Rightarrow> env" where
  "sample_env git args =
     \<lparr>resolve = sample_resolve, cwd = sample_root, git_toplevel = git, argv = args\<rparr>"

definition in_repo :: "string \<Rightarrow> pure_path" where
  "in_repo n = PurePath ''/'' [''repo'', n]"

definition sample_files :: "(pure_path \<times> entry) list" where
  "sample_files =
     [(in_repo ''a.py'', Regular (''print(1)'' @ [LF])),
      (in_repo ''b.py'', Regular (''# old'' @ [LF] @ ''x = 1'' @ [LF])),
      (in_repo ''c.py'', Regular (''# c.py'' @ [LF] @ ''x = 1'' @ [CR, LF])),
      (in_repo ''d.py'', Regular (''# d.py'' @ [LF] @ ''x = 1'' @ [LF])),
      (in_repo ''run.py'', Regular (''#!/usr/bin/env python3'' @ [LF] @ ''print(1)'' @ [LF])),
      (in_repo (''e'' @ [LF] @ ''f.py''), Regular []),
      (in_repo ''notes.txt'', Regular (''todo'' @ [LF])),
      (PurePath ''/'' [''tmp'', ''x.py''], Regular (''x = 1'' @ [LF])),
      (in_repo ''g.py'', Regular (''x = 1'' @ [CR, LF] @ ''y = 2'' @ [CR, LF]))]"

definition sample_world :: world where
  "sample_world = \<lparr>files = map_of sample_files, opened = []\<rparr>"

section \<open>Properties\<close>

subsection \<open>Unfolding sets for concrete runs\<close>

lemmas sample_defs = sample_env_def sample_resolve_def sample_root_def in_repo_def
  sample_files_def sample_world_def

lemmas run_defs = ensure_header_def header_line_def read_lines_def write_lines_def
  relative_to_def posix_str_def path_name_def Path_def stamp_def readlines_def
  startswith_def endswith_def Let_def

lemmas eval_defs = sample_defs run_defs main_def get_repo_root_def check_output_def
  strip_def py_isspace_def exit_status_def suffix_to_prefix

subsection \<open>Lines and newlines\<close>

lemma concat_split_lines: "concat (split_lines s) = s"
  by (induction s) (auto split: list.splits)

lemma CR_notin_universal_newlines: "CR \<notin> set (universal_newlines s)"
  by (induction s rule: universal_newlines.induct) auto

lemma universal_newlines_id: "CR \<notin> set s \<Longrightarrow> universal_newlines s = s"
  by (induction s rule: universal_newlines.induct) auto

lemma LF_in_universal_newlines: "LF \<in> set s \<Longrightarrow> LF \<in> set (universal_newlines s)"
  by (induction s rule: universal_newlines.induct) (auto split: if_splits)

lemma universal_newlines_Cons:
  "c \<noteq> CR \<Longrightarrow> universal_newlines (c # s) = c # universal_newlines s"
  by (cases s) auto

lemma split_lines_first:
  "LF \<notin> set b \<Longrightarrow> split_lines (b @ LF # t) = (b @ [LF]) # split_lines t"
  by (induction b) auto

lemma concat_readlines: "concat (readlines c) = universal_newlines c"
  by (simp add: readlines_def concat_split_lines)

lemma set_join: "set (join sep xs) \<subseteq> set sep \<union> (\<Union>x\<in>set xs. set x)"
  by (induction sep xs rule: join.induct) auto

text \<open>A text that begins with a header line is read back with a first line of that shape.\<close>

lemma readlines_headed:
  "\<exists>b rest. readlines (''# '' @ s @ LF # t) = (''# '' @ b @ [LF]) # rest"
proof -
  let ?u = "universal_newlines (s @ LF # t)"
  have "LF \<in> set ?u" by (rule LF_in_universal_newlines) simp
  then obtain b t' where u: "?u = b @ LF # t'" and b: "LF \<notin> set b"
    by (auto dest: split_list_first)
  have "universal_newlines (''# '' @ s @ LF # t) = ''# '' @ ?u"
    by (simp add: universal_newlines_Cons)
  also have "\<dots> = (''# '' @ b) @ LF # t'" by (simp add: u)
  finally have "readlines (''# '' @ s @ LF # t) = ((''# '' @ b) @ [LF]) # split_lines t'"
    unfolding readlines_def using b by (simp add: split_lines_first)
  then show ?thesis by auto
qed

subsection \<open>What a run of \<^verbatim>\<open>ensure_header\<close> does\<close>

lemma stamp_shape: "\<exists>rest. stamp h ls = h # rest \<and> set rest \<subseteq> set ls"
  by (cases ls) (auto simp: stamp_def)

lemma header_line_InrD:
  assumes "header_line e f root = Inr h"
  shows "\<exists>r. relative_to (resolve e f) root = Inr r \<and> h = ''# '' @ posix_str r @ [LF]"
  using assms
  by (auto simp: header_line_def Let_def split: sum.splits if_splits pyobj.splits
      elim: as_posix.elims)

lemma header_line_outside:
  assumes "relative_to (resolve e f) root = Inl ValueError"
  shows "header_line e f root = Inl AttributeError"
  using assms by (simp add: header_line_def Let_def)

lemma ensure_header_run:
  assumes "header_line e f root = Inr h" and "files w (resolve e f) = Some (Regular c)"
  shows "ensure_header e f root w =
           (Inr (), w\<lparr>opened := opened w @ [(resolve e f, ''r+''), (resolve e f, ''w'')],
                      files := (files w)(resolve e f \<mapsto> Regular (concat (stamp h (readlines c))))\<rparr>)"
  using assms by (simp add: ensure_header_def read_lines_def write_lines_def Let_def)

lemma ensure_header_InrD:
  assumes "fst (ensure_header e f root w) = Inr u"
  shows "\<exists>h c. header_line e f root = Inr h \<and> files w (resolve e f) = Some (Regular c)"
  using assms
  by (auto simp: ensure_header_def read_lines_def write_lines_def Let_def
      split: sum.splits option.splits entry.splits prod.splits)

lemma ensure_header_InlD:
  assumes "fst (ensure_header e f root w) = Inl err"
  shows "files (snd (ensure_header e f root w)) = files w"
  using assms
  by (auto simp: ensure_header_def read_lines_def write_lines_def Let_def
      split: sum.splits option.splits entry.splits prod.splits)

text \<open>The outcome and the files after a run depend on the files before it only.\<close>

lemma ensure_header_files_only:
  assumes "files v = files w"
  shows "fst (ensure_header e f root v) = fst (ensure_header e f root w) \<and>
         files (snd (ensure_header e f root v)) = files (snd (ensure_header e f root w))"
  using assms
  by (auto simp: ensure_header_def read_lines_def write_lines_def Let_def
      split: sum.splits option.splits entry.splits prod.splits)

lemma posix_str_relative_chars:
  assumes "relative_to p root = Inr r" and "c \<noteq> CHR ''.''" and "c \<noteq> CHR ''/''"
    and "\<forall>n\<in>set (names p). c \<notin> set n"
  shows "c \<notin> set (posix_str r)"
proof -
  from assms(1) have r: "r = PurePath [] (drop (length (names root)) (names p))"
    by (auto simp: relative_to_def split: if_splits)
  have "set (join ''/'' (names r)) \<subseteq> set ''/'' \<union> (\<Union>x\<in>set (names r). set x)"
    by (rule set_join)
  moreover have "set (names r) \<subseteq> set (names p)"
    by (simp add: r set_drop_subset)
  ultimately have "c \<notin> set (join ''/'' (names r))"
    using assms(3,4) by auto
  then show ?thesis using assms(2) by (simp add: posix_str_def r)
qed

text \<open>A second run on a file the first run has stamped writes the same bytes again.\<close>

lemma ensure_header_again:
  assumes h: "header_line e f root = Inr h"
    and c: "files w (resolve e f) = Some (Regular c)"
    and names: "\<forall>n\<in>set (names (resolve e f)). LF \<notin> set n \<and> CR \<notin> set n"
  shows "concat (stamp h (readlines (concat (stamp h (readlines c)))))
           = concat (stamp h (readlines c))"
proof -
  from header_line_InrD[OF h] obtain r where
    r: "relative_to (resolve e f) root = Inr r" and hr: "h = ''# '' @ posix_str r @ [LF]"
    by auto
  have noLF: "LF \<notin> set (posix_str r)" and noCR: "CR \<notin> set (posix_str r)"
    using posix_str_relative_chars[OF r, of LF] posix_str_relative_chars[OF r, of CR] names
    by auto
  from stamp_shape[of h "readlines c"] obtain rest where
    st: "stamp h (readlines c) = h # rest" and rest: "set rest \<subseteq> set (readlines c)"
    by auto
  have "CR \<notin> set (concat (readlines c))"
    by (simp only: concat_readlines CR_notin_universal_newlines not_False_eq_True)
  then have restCR: "CR \<notin> set (concat rest)"
    using rest by auto
  let ?c1 = "concat (stamp h (readlines c))"
  have c1: "?c1 = (''# '' @ posix_str r) @ LF # concat rest"
    unfolding st by (simp add: hr)
  have "CR \<notin> set ?c1" unfolding c1 using noCR restCR by simp
  then have "readlines ?c1 = split_lines ?c1"
    by (simp add: readlines_def universal_newlines_id)
  also have "\<dots> = h # split_lines (concat rest)"
    unfolding c1 using noLF by (subst split_lines_first) (simp_all add: hr)
  finally have rl: "readlines ?c1 = h # split_lines (concat rest)" .
  have "stamp h (readlines ?c1) = h # split_lines (concat rest)"
    unfolding rl by (simp add: stamp_def startswith_def hr)
  then show ?thesis
    by (simp add: concat_split_lines st)
qed

subsection \<open>The loop over the arguments\<close>

lemma main_loop_append:
  "main_loop e root (pre @ post) w =
     (case main_loop e root pre w of
        (Inl err, w') \<Rightarrow> (Inl err, w')
      | (Inr u, w') \<Rightarrow> main_loop e root post w')"
  by (induction pre arbitrary: w) (auto split: prod.splits sum.splits)





section \<open>The claims\<close>

subsection \<open>Replacing or inserting the first line\<close>




subsection \<open>A file outside the repository root\<close>

text \<open>
  Claim C2 says that for a file outside the root the run completes with the base name
  as the header content. The code takes \<^verbatim>\<open>path.name\<close>, which is a \<^verbatim>\<open>str\<close>, and
  then calls \<^verbatim>\<open>as_posix()\<close> on it: the run raises \<^verbatim>\<open>AttributeError\<close> before the
  file is opened. For \<^verbatim>\<open>/tmp/x.py\<close> with the root \<^verbatim>\<open>/repo\<close>:
\<close>

theorem ensure_header_outside_root:
  "relative_to (sample_resolve ''/tmp/x.py'') sample_root = Inl ValueError \<and>
   path_name (sample_resolve ''/tmp/x.py'') = ''x.py'' \<and>
   files sample_world (sample_resolve ''/tmp/x.py'') = Some (Regular (''x = 1'' @ [LF])) \<and>
   ensure_header (sample_env (Output (''/repo'' @ [LF])) []) ''/tmp/x.py'' sample_root sample_world
     = (Inl AttributeError, sample_world)"
  by (simp add: eval_defs)

subsection \<open>Running twice\<close>

text \<open>
  Claim C3, amended. When no component of the file's resolved path contains a line feed
  or a carriage return, a second run of \<^verbatim>\<open>ensure_header\<close> on the same file with the
  same root ends as the first one did and leaves the content of every file exactly as
  the first run left it.
\<close>

theorem ensure_header_idempotent:
  assumes "\<forall>n\<in>set (names (resolve e filepath)). LF \<notin> set n \<and> CR \<notin> set n"
  shows "fst (ensure_header e filepath repo_root (snd (ensure_header e filepath repo_root w)))
           = fst (ensure_header e filepath repo_root w) \<and>
         files (snd (ensure_header e filepath repo_root (snd (ensure_header e filepath repo_root w))))
           = files (snd (ensure_header e filepath repo_root w))"
proof (cases "fst (ensure_header e filepath repo_root w)")
  case (Inl err)
  then have "files (snd (ensure_header e filepath repo_root w)) = files w"
    by (rule ensure_header_InlD)
  from ensure_header_files_only[OF this, of e filepath repo_root] this
  show ?thesis by simp
next
  case (Inr u)
  let ?p = "resolve e filepath"
  from ensure_header_InrD[OF Inr] obtain h c where
    h: "header_line e filepath repo_root = Inr h" and
    c: "files w ?p = Some (Regular c)"
    by auto
  let ?c1 = "concat (stamp h (readlines c))"
  let ?w1 = "w\<lparr>opened := opened w @ [(?p, ''r+''), (?p, ''w'')],
                files := (files w)(?p \<mapsto> Regular ?c1)\<rparr>"
  have run1: "ensure_header e filepath repo_root w = (Inr (), ?w1)"
    by (rule ensure_header_run[OF h c])
  have f1: "files ?w1 ?p = Some (Regular ?c1)" by simp
  have run2: "ensure_header e filepath repo_root ?w1 =
      (Inr (), ?w1\<lparr>opened := opened ?w1 @ [(?p, ''r+''), (?p, ''w'')],
                    files := (files ?w1)(?p \<mapsto> Regular ?c1)\<rparr>)"
    unfolding ensure_header_run[OF h f1] ensure_header_again[OF h c assms] by (rule refl)
  have "(files ?w1)(?p \<mapsto> Regular ?c1) = files ?w1"
    using f1 by (rule fun_upd_idem)
  then show ?thesis unfolding run1 snd_conv fst_conv run2 by simp
qed

theorem ensure_header_idempotent_witness:
  "fst (ensure_header (sample_env NonZeroExit []) ''b.py'' sample_root sample_world) = Inr () \<and>
   fst (ensure_header (sample_env NonZeroExit []) ''b.py'' sample_root
          (snd (ensure_header (sample_env NonZeroExit []) ''b.py'' sample_root sample_world))) = Inr () \<and>
   files (snd (ensure_header (sample_env NonZeroExit []) ''b.py'' sample_root
          (snd (ensure_header (sample_env NonZeroExit []) ''b.py'' sample_root sample_world))))
     = files (snd (ensure_header (sample_env NonZeroExit []) ''b.py'' sample_root sample_world))"
proof -
  let ?e = "sample_env NonZeroExit []"
  have h1: "fst (ensure_header ?e ''b.py'' sample_root sample_world) = Inr ()"
    by (simp add: eval_defs)
  have h2: "\<forall>n\<in>set (names (resolve ?e ''b.py'')). LF \<notin> set n \<and> CR \<notin> set n"
    by (simp add: eval_defs)
  from ensure_header_idempotent[OF h2, of sample_root sample_world] h1 show ?thesis by simp
qed

text \<open>
  As claim C3 is stated it fails for a file whose name contains a line feed: the header
  then spans two lines, the second run takes the first of them for a stale header, and
  every run adds a line.
\<close>

theorem ensure_header_newline_in_name:
  "fst (ensure_header (sample_env NonZeroExit []) (''e'' @ [LF] @ ''f.py'') sample_root sample_world)
     = Inr () \<and>
   files (snd (ensure_header (sample_env NonZeroExit []) (''e'' @ [LF] @ ''f.py'') sample_root
                 sample_world))
       (in_repo (''e'' @ [LF] @ ''f.py''))
     = Some (Regular (''# e'' @ [LF] @ ''f.py'' @ [LF])) \<and>
   files (snd (ensure_header (sample_env NonZeroExit []) (''e'' @ [LF] @ ''f.py'') sample_root
            (snd (ensure_header (sample_env NonZeroExit []) (''e'' @ [LF] @ ''f.py'') sample_root
                    sample_world))))
       (in_repo (''e'' @ [LF] @ ''f.py''))
     = Some (Regular (''# e'' @ [LF] @ ''f.py'' @ [LF] @ ''f.py'' @ [LF]))"
  by (simp add: eval_defs)

subsection \<open>The Branch Guard\<close>

text \<open>
  Claim C4. When the branch query answers, the guard decides on the trimmed answer: for
  \<^verbatim>\<open>main\<close> and \<^verbatim>\<open>master\<close> it prints a message that contains the branch name and
  exits with status 1; for every other name it prints nothing and exits with status 0.
\<close>

theorem block_branch_exit:
  "(strip out = ''main'' \<or> strip out = ''master'' \<longrightarrow>
      (\<exists>msg. block_branch (Output out) = Inr (msg, 1) \<and> sublist (strip out) msg)) \<and>
   (strip out \<noteq> ''main'' \<and> strip out \<noteq> ''master'' \<longrightarrow>
      block_branch (Output out) = Inr ([], 0))"
  by (auto simp: block_branch_def check_output_def Let_def refusal_def sublist_def
        intro: exI[of _ "''Commits diretos para '' @ [CHR 0x22]"])

theorem block_branch_exit_witness:
  "block_branch (Output (''main'' @ [LF])) = Inr (refusal ''main'', 1) \<and>
   sublist ''main'' (refusal ''main'') \<and>
   block_branch (Output (''feature/x'' @ [LF])) = Inr ([], 0)"
proof -
  have s1: "strip (''main'' @ [LF]) = ''main''" by (simp add: strip_def py_isspace_def)
  have s2: "strip (''feature/x'' @ [LF]) = ''feature/x''" by (simp add: strip_def py_isspace_def)
  have b: "block_branch (Output (''main'' @ [LF])) = Inr (refusal ''main'', 1)"
    using s1 by (simp add: block_branch_def check_output_def Let_def)
  from block_branch_exit[of "''main'' @ [LF]"] block_branch_exit[of "''feature/x'' @ [LF]"] b
  show ?thesis unfolding s1 s2 by auto
qed

subsection \<open>A file that already carries its header\<close>

text \<open>
  Claim C5, amended. Let the first line of a file equal the computed header and let the
  file contain no carriage return. Then the run completes and leaves the content of
  every file as it was, byte for byte.
\<close>

theorem ensure_header_keeps_stamped_file:
  assumes "header_line e filepath repo_root = Inr header"
    and "files w (resolve e filepath) = Some (Regular content)"
    and "readlines content \<noteq> []"
    and "hd (readlines content) = header"
    and "CR \<notin> set content"
  shows "fst (ensure_header e filepath repo_root w) = Inr () \<and>
         files (snd (ensure_header e filepath repo_root w)) = files w"
proof -
  from header_line_InrD[OF assms(1)] obtain r where "header = ''# '' @ posix_str r @ [LF]"
    by auto
  then have "startswith header ''# ''" by (simp add: startswith_def)
  then have "stamp header (readlines content) = readlines content"
    using assms(3,4) by (simp add: stamp_def)
  then have "concat (stamp header (readlines content)) = content"
    using assms(5) by (simp add: concat_readlines universal_newlines_id)
  then show ?thesis
    unfolding ensure_header_run[OF assms(1,2)] using assms(2) by (simp add: fun_upd_idem)
qed

theorem ensure_header_keeps_stamped_file_witness:
  "hd (readlines (''# d.py'' @ [LF] @ ''x = 1'' @ [LF])) = ''# d.py'' @ [LF] \<and>
   fst (ensure_header (sample_env NonZeroExit []) ''d.py'' sample_root sample_world) = Inr () \<and>
   files (snd (ensure_header (sample_env NonZeroExit []) ''d.py'' sample_root sample_world))
     = files sample_world"
proof -
  let ?e = "sample_env NonZeroExit []"
  let ?c = "''# d.py'' @ [LF] @ ''x = 1'' @ [LF]"
  have h2: "header_line ?e ''d.py'' sample_root = Inr (''# d.py'' @ [LF])"
    by (simp add: eval_defs)
  have h3: "files sample_world (resolve ?e ''d.py'') = Some (Regular ?c)"
    by (simp add: eval_defs)
  have h4: "readlines ?c \<noteq> []" by (simp add: eval_defs)
  have h5: "hd (readlines ?c) = ''# d.py'' @ [LF]" by (simp add: eval_defs)
  have h6: "CR \<notin> set ?c" by simp
  from ensure_header_keeps_stamped_file[OF h2 h3 h4 h5 h6] h5 show ?thesis by simp
qed

text \<open>
  As claim C5 is stated it fails for a file with a carriage return: the first line of
  \<^verbatim>\<open>c.py\<close> is its header, and the run rewrites the \<^verbatim>\<open>\r\n\<close> that ends its
  second line to \<^verbatim>\<open>\n\<close>.
\<close>

theorem ensure_header_rewrites_crlf:
  "header_line (sample_env NonZeroExit []) ''c.py'' sample_root = Inr (''# c.py'' @ [LF]) \<and>
   files sample_world (sample_resolve ''c.py'')
     = Some (Regular (''# c.py'' @ [LF] @ ''x = 1'' @ [CR, LF])) \<and>
   hd (readlines (''# c.py'' @ [LF] @ ''x = 1'' @ [CR, LF])) = ''# c.py'' @ [LF] \<and>
   fst (ensure_header (sample_env NonZeroExit []) ''c.py'' sample_root sample_world) = Inr () \<and>
   files (snd (ensure_header (sample_env NonZeroExit []) ''c.py'' sample_root sample_world))
       (sample_resolve ''c.py'')
     = Some (Regular (''# c.py'' @ [LF] @ ''x = 1'' @ [LF])) \<and>
   files (snd (ensure_header (sample_env NonZeroExit []) ''c.py'' sample_root sample_world))
       (sample_resolve ''c.py'')
     \<noteq> files sample_world (sample_resolve ''c.py'')"
  by (simp add: eval_defs)

subsection \<open>The repository root\<close>

text \<open>
  Claim C6, amended. When the root query fails because \<^verbatim>\<open>git\<close> exits with a status
  other than 0 (\<^verbatim>\<open>CalledProcessError\<close>), \<^verbatim>\<open>get_repo_root\<close> raises nothing and
  answers the working directory, and \<^verbatim>\<open>main\<close> goes on over its arguments with that
  root: it returns 0 unless the work on one of the files raises.
\<close>

theorem get_repo_root_falls_back:
  assumes "git_toplevel e = NonZeroExit"
  shows "get_repo_root e = Inr (cwd e) \<and>
         main e w = (case main_loop e (cwd e) (drop 1 (argv e)) w of
                       (Inl err, w') \<Rightarrow> (Inl err, w')
                     | (Inr u, w') \<Rightarrow> (Inr 0, w'))"
  using assms by (simp add: get_repo_root_def check_output_def main_def)

theorem get_repo_root_falls_back_witness:
  "git_toplevel (sample_env NonZeroExit [''add_repo_path_header.py'', ''a.py'']) = NonZeroExit \<and>
   get_repo_root (sample_env NonZeroExit [''add_repo_path_header.py'', ''a.py'']) = Inr sample_root \<and>
   fst (main (sample_env NonZeroExit [''add_repo_path_header.py'', ''a.py'']) sample_world) = Inr 0"
proof -
  let ?e = "sample_env NonZeroExit [''add_repo_path_header.py'', ''a.py'']"
  have h: "git_toplevel ?e = NonZeroExit" by (simp add: sample_env_def)
  have c: "cwd ?e = sample_root" by (simp add: sample_env_def)
  have m: "fst (main_loop ?e sample_root (drop 1 (argv ?e)) sample_world) = Inr ()"
    by (simp add: eval_defs)
  from get_repo_root_falls_back[OF h, of sample_world] h m show ?thesis
    unfolding c by (simp split: prod.splits sum.splits)
qed

text \<open>
  As claim C6 is stated it fails when the query fails in another way: without a
  \<^verbatim>\<open>git\<close> executable \<^verbatim>\<open>check_output\<close> raises an \<^verbatim>\<open>OSError\<close>, which the
  \<^verbatim>\<open>except\<close> clause does not name, and the run ends there.
\<close>

theorem get_repo_root_launch_failure:
  "get_repo_root (sample_env LaunchFailed [''add_repo_path_header.py'', ''a.py'']) = Inl OSError \<and>
   main (sample_env LaunchFailed [''add_repo_path_header.py'', ''a.py'']) sample_world
     = (Inl OSError, sample_world)"
  by (simp add: eval_defs)

subsection \<open>The exit status\<close>




subsection \<open>Arguments with another suffix\<close>

text \<open>
  Claim C8. An argument that does not end in \<^verbatim>\<open>.py\<close> is skipped: processing it alone
  leaves the world as it was (no file is opened, no content changes), and a run over
  any argument list is the run over that list without the argument.
\<close>

theorem main_skips_other_suffixes:
  assumes "\<not> endswith file ''.py''"
  shows "main_loop e repo_root [file] w = (Inr (), w) \<and>
         main_loop e repo_root (pre @ file # post) w = main_loop e repo_root (pre @ post) w"
  using assms by (simp add: main_loop_append[of e repo_root pre] split: prod.splits sum.splits)

theorem main_skips_other_suffixes_witness:
  "\<not> endswith ''notes.txt'' ''.py'' \<and>
   main_loop (sample_env NonZeroExit []) sample_root [''notes.txt''] sample_world
     = (Inr (), sample_world) \<and>
   main_loop (sample_env NonZeroExit []) sample_root [''a.py'', ''notes.txt'', ''b.py''] sample_world
     = main_loop (sample_env NonZeroExit []) sample_root [''a.py'', ''b.py''] sample_world"
proof -
  have h: "\<not> endswith ''notes.txt'' ''.py''" by (simp add: endswith_def suffix_to_prefix)
  from main_skips_other_suffixes[OF h, of "sample_env NonZeroExit []" sample_root sample_world
      "[''a.py'']" "[''b.py'']"] h
  show ?thesis by simp
qed

subsection \<open>The first line after a run\<close>

text \<open>
  Claim C9. After any run of \<^verbatim>\<open>ensure_header\<close> that completes, whatever the file held
  before (so after a first run and after every later one), the file is not empty and its
  first line starts with \<^verbatim>\<open>"# "\<close> and ends with a line feed.
\<close>

theorem ensure_header_first_line:
  assumes "fst (ensure_header e filepath repo_root w) = Inr ()"
  shows "\<exists>c. files (snd (ensure_header e filepath repo_root w)) (resolve e filepath)
                = Some (Regular c) \<and>
           c \<noteq> [] \<and> readlines c \<noteq> [] \<and>
           startswith (hd (readlines c)) ''# '' \<and> endswith (hd (readlines c)) [LF]"
proof -
  from ensure_header_InrD[OF assms] obtain h c where
    h: "header_line e filepath repo_root = Inr h" and
    c: "files w (resolve e filepath) = Some (Regular c)"
    by auto
  have w': "files (snd (ensure_header e filepath repo_root w)) (resolve e filepath)
          = Some (Regular (concat (stamp h (readlines c))))"
    unfolding ensure_header_run[OF h c] by simp
  from header_line_InrD[OF h] obtain r where hr: "h = ''# '' @ posix_str r @ [LF]" by auto
  from stamp_shape[of h "readlines c"] obtain rest where "stamp h (readlines c) = h # rest"
    by auto
  then have c': "concat (stamp h (readlines c)) = ''# '' @ posix_str r @ LF # concat rest"
    by (simp add: hr)
  from readlines_headed[of "posix_str r" "concat rest"] obtain b ls where
    "readlines (''# '' @ posix_str r @ LF # concat rest) = (''# '' @ b @ [LF]) # ls" by auto
  with w' c' show ?thesis
    by (auto simp: startswith_def endswith_def suffix_def)
qed

theorem ensure_header_first_line_witness:
  "fst (ensure_header (sample_env NonZeroExit []) ''a.py'' sample_root sample_world) = Inr () \<and>
   (\<exists>c. files (snd (ensure_header (sample_env NonZeroExit []) ''a.py'' sample_root sample_world))
           (in_repo ''a.py'') = Some (Regular c) \<and>
        c \<noteq> [] \<and> readlines c \<noteq> [] \<and>
        startswith (hd (readlines c)) ''# '' \<and> endswith (hd (readlines c)) [LF])"
proof -
  let ?e = "sample_env NonZeroExit []"
  have h1: "fst (ensure_header ?e ''a.py'' sample_root sample_world) = Inr ()"
    by (simp add: eval_defs)
  have r: "resolve ?e ''a.py'' = in_repo ''a.py''" by (simp add: eval_defs)
  from ensure_header_first_line[OF h1] h1 show ?thesis unfolding r by simp
qed

subsection \<open>A shebang line\<close>



end
